theory Spec2Isabelle
  imports Main
begin

section \<open>Python values of haystack/modeling/model/tokenization.py\<close>

text \<open>
  A Python \<^verbatim>\<open>str\<close> is a sequence of Unicode code points and \<^verbatim>\<open>len\<close> counts code
  points, so a string is modelled as the list of its code points. The markers of
  \<^verbatim>\<open>SPECIAL_TOKENIZER_CHARS\<close> (U+0120 and U+2581) are single code points beyond one byte.
\<close>

type_synonym pychar = nat
type_synonym pystr = "pychar list"

definition py :: "string \<Rightarrow> pystr" where
  "py s = map of_char s"

text \<open>
  The exceptions the module can raise or let through. \<open>LibraryError\<close> stands for any other
  exception that a call into the transformers library raises.
\<close>

datatype py_error =
    AssertionError
  | IndexError
  | KeyError
  | NameError
  | UnboundLocalError
  | NotImplementedError
  | OSError
  | TypeError
  | ValueError
  | ModelingError
  | LibraryError

text \<open>
  What the library's fast tokenizer reports for one text, its \<^verbatim>\<open>Encoding\<close>: for every
  token the id, the character span, the index of the source word (\<^verbatim>\<open>None\<close> for a special
  token) and the token string. The module reads them as lists with one entry per token:
  \<^verbatim>\<open>["input_ids"]\<close>, \<^verbatim>\<open>["offset_mapping"]\<close>, \<^verbatim>\<open>.encodings[0].words\<close> and
  \<^verbatim>\<open>.encodings[0].tokens\<close>.
\<close>

record token_entry =
  entry_id :: int
  entry_offsets :: "nat \<times> nat"
  entry_word :: "nat option"
  entry_token :: pystr

type_synonym encoding = "token_entry list"

definition input_ids :: "encoding \<Rightarrow> int list" where
  "input_ids e = map entry_id e"

definition offset_mapping :: "encoding \<Rightarrow> (nat \<times> nat) list" where
  "offset_mapping e = map entry_offsets e"

definition words :: "encoding \<Rightarrow> nat option list" where
  "words e = map entry_word e"

definition enc_tokens :: "encoding \<Rightarrow> pystr list" where
  "enc_tokens e = map entry_token e"

text \<open>
  The tokenizer object, an instance of a class of the transformers library. The module
  reads the attributes and calls the methods below; \<open>'a\<close> is the type of the elements of
  the sequences handed to the truncation method.
  \<^item> \<open>tok_type\<close>: \<^verbatim>\<open>type(tokenizer)\<close>, a class named by its name;
  \<^item> \<open>tokenize\<close>: \<^verbatim>\<open>tokenizer.tokenize(w)\<close> (flag \<open>False\<close>) and
    \<^verbatim>\<open>tokenizer.tokenize(w, add_prefix_space=True)\<close> (flag \<open>True\<close>);
  \<^item> \<open>unk_token\<close>: the entry \<^verbatim>\<open>"unk_token"\<close> of \<^verbatim>\<open>tokenizer.special_tokens_map\<close>, \<open>None\<close>
    when the map has no such key;
  \<^item> \<open>encode_plus\<close>, \<open>batch_encode_plus\<close>: the second argument is \<^verbatim>\<open>add_special_tokens\<close>;
  \<^item> \<open>num_special_tokens_to_add\<close>: the argument is \<^verbatim>\<open>pair\<close>;
  \<^item> \<open>tokenizer_truncate_sequences\<close>: the method \<^verbatim>\<open>tokenizer.truncate_sequences(ids,
    pair_ids, num_tokens_to_remove, truncation_strategy, stride)\<close>.
\<close>

record 'a tokenizer =
  is_fast :: bool
  tok_type :: pystr
  tokenize :: "pystr \<Rightarrow> bool \<Rightarrow> pystr list"
  unk_token :: "pystr option"
  encode_plus :: "pystr \<Rightarrow> bool \<Rightarrow> encoding"
  batch_encode_plus :: "pystr list \<Rightarrow> bool \<Rightarrow> encoding list"
  num_special_tokens_to_add :: "bool \<Rightarrow> nat"
  tokenizer_truncate_sequences ::
    "'a list \<Rightarrow> 'a list option \<Rightarrow> int \<Rightarrow> pystr \<Rightarrow> int
      \<Rightarrow> py_error + ('a list \<times> 'a list option \<times> 'a list)"

section \<open>The names the module reads and never binds\<close>

text \<open>
  The module binds, at its top level, the names \<^verbatim>\<open>re\<close>, \<^verbatim>\<open>logging\<close>, \<^verbatim>\<open>np\<close>,
  \<^verbatim>\<open>AutoTokenizer\<close>, \<^verbatim>\<open>transformers\<close>, \<^verbatim>\<open>AutoConfig\<close>, \<^verbatim>\<open>PreTrainedTokenizer\<close>,
  \<^verbatim>\<open>ModelingError\<close>, \<^verbatim>\<open>SampleBasket\<close>, the three tables of \<^verbatim>\<open>_mappings\<close>, \<^verbatim>\<open>logger\<close>,
  \<^verbatim>\<open>SPECIAL_TOKENIZER_CHARS\<close> and its own seven functions. Two names that its functions
  read are not among them: \<^verbatim>\<open>RobertaTokenizer\<close> (line 349) and \<^verbatim>\<open>Tokenizer\<close> (line 96).
  Reading a global name that is not bound raises \<^verbatim>\<open>NameError\<close>. The binding of each of the
  two names is a parameter of the model, \<open>None\<close> when the name is not bound:
  \<^item> \<open>RobertaTokenizer\<close>: a class, named by its name;
  \<^item> \<open>Tokenizer_infer\<close>: the attribute \<^verbatim>\<open>_infer_tokenizer_class_from_string\<close> of
    \<^verbatim>\<open>Tokenizer\<close>, a function from the model name to a class name or an exception.
  \<open>module_globals\<close> is the module as it is written.
\<close>

record module_names =
  RobertaTokenizer :: "pystr option"
  Tokenizer_infer :: "(pystr \<Rightarrow> py_error + pystr option) option"

definition module_globals :: module_names where
  "module_globals = \<lparr> RobertaTokenizer = None, Tokenizer_infer = None \<rparr>"

section \<open>get_tokenizer and _infer_tokenizer_classname\<close>

text \<open>
  The configuration object that \<^verbatim>\<open>AutoConfig.from_pretrained\<close> returns: the module reads
  \<^verbatim>\<open>config.model_type\<close> and \<^verbatim>\<open>config.architectures\<close>, which is a list or \<^verbatim>\<open>None\<close>.
\<close>

record config =
  model_type :: pystr
  architectures :: "pystr list option"

text \<open>
  What the resolver reads from outside tokenization.py:
  \<^item> \<open>AutoConfig_from_pretrained\<close>: \<^verbatim>\<open>AutoConfig.from_pretrained(path,
    use_auth_token=auth_token or False)\<close>, a configuration or the exception raised;
  \<^item> the three tables of \<^verbatim>\<open>haystack.modeling.model._mappings\<close>, which is not among the
    sources: \<^verbatim>\<open>TOKENIZERS_MAPPING\<close> and \<^verbatim>\<open>TOKENIZERS_PARAMS\<close> are only looked up,
    \<^verbatim>\<open>TOKENIZERS_STRING_HINTS\<close> is iterated in the order of its items;
  \<^item> \<open>class_from_pretrained\<close>: \<^verbatim>\<open>getattr(transformers, name, None).from_pretrained(path,
    use_auth_token=.., revision=.., **params, **kwargs)\<close>, a tokenizer or the exception
    raised (also when \<^verbatim>\<open>transformers\<close> has no attribute of that name).
\<close>

record ('p, 't) library =
  AutoConfig_from_pretrained :: "pystr \<Rightarrow> py_error + config"
  TOKENIZERS_MAPPING :: "pystr \<rightharpoonup> pystr"
  TOKENIZERS_STRING_HINTS :: "(pystr \<times> pystr) list"
  TOKENIZERS_PARAMS :: "pystr \<rightharpoonup> 'p"
  class_from_pretrained :: "pystr \<Rightarrow> pystr \<Rightarrow> 'p option \<Rightarrow> py_error + 't"

text \<open>
  A local variable of a function is unbound until an assignment to it has run; reading
  it before raises \<^verbatim>\<open>UnboundLocalError\<close>.
\<close>

datatype 'a local = Unbound | Bound 'a

fun read_local :: "'a local \<Rightarrow> py_error + 'a" where
  "read_local Unbound = Inl UnboundLocalError"
| "read_local (Bound v) = Inr v"

text \<open>\<^verbatim>\<open>key in s\<close> for two strings: \<open>key\<close> occurs in \<open>s\<close> as a substring.\<close>

fun contains :: "pystr \<Rightarrow> pystr \<Rightarrow> bool" where
  "contains key [] = (key = [])"
| "contains key (c # cs) = (take (length key) (c # cs) = key \<or> contains key cs)"

text \<open>
  \<^verbatim>\<open>s.lower()\<close>, on the letters A to Z. Python also maps letters beyond ASCII, none of them
  to the letters m and l that line 124 looks for.
\<close>

definition lower :: "pystr \<Rightarrow> pystr" where
  "lower s = map (\<lambda>c. if 65 \<le> c \<and> c \<le> 90 then c + 32 else c) s"

text \<open>
  The \<^verbatim>\<open>try\<close> statement of lines 83 to 97. Its result is either the end of the call (\<open>Inl\<close>:
  the exception raised or the value returned at line 97) or the local variables
  \<^verbatim>\<open>config\<close>, \<^verbatim>\<open>model_type\<close> and \<^verbatim>\<open>tokenizer_classname\<close> afterwards (\<open>Inr\<close>). Only the
  handler's inner \<^verbatim>\<open>try\<close> assigns \<^verbatim>\<open>model_type\<close> and \<^verbatim>\<open>tokenizer_classname\<close>; when the first
  load succeeds they stay unbound. The first handler catches \<^verbatim>\<open>OSError\<close> alone, the inner
  one every exception; line 96 reads the global name \<^verbatim>\<open>Tokenizer\<close>.
\<close>

definition load_config ::
  "module_names \<Rightarrow> ('p, 't) library \<Rightarrow> pystr
    \<Rightarrow> (py_error + pystr option) + (config \<times> pystr local \<times> pystr option local)" where
  "load_config G lib pretrained_model_name_or_path =
     (case AutoConfig_from_pretrained lib pretrained_model_name_or_path of
        Inr config \<Rightarrow> Inr (config, Unbound, Unbound)
      | Inl e \<Rightarrow>
          if e = OSError
          then
            (case AutoConfig_from_pretrained lib
                    (pretrained_model_name_or_path @ py ''/language_model_config.json'') of
               Inr config \<Rightarrow>
                 Inr (config, Bound (model_type config),
                      Bound (TOKENIZERS_MAPPING lib (model_type config)))
             | Inl e' \<Rightarrow>
                 (case Tokenizer_infer G of
                    None \<Rightarrow> Inl (Inl NameError)
                  | Some infer_from_string \<Rightarrow>
                      Inl (infer_from_string pretrained_model_name_or_path)))
          else Inl (Inl e))"

text \<open>
  Lines 101 to 127. \<^verbatim>\<open>not tokenizer_classname\<close> holds for \<^verbatim>\<open>None\<close> and for the empty string.
  \<^verbatim>\<open>config.architectures[0]\<close> raises \<^verbatim>\<open>TypeError\<close> on \<^verbatim>\<open>None\<close> and \<^verbatim>\<open>IndexError\<close> on an empty
  list.
\<close>

definition infer_tokenizer_classname ::
  "module_names \<Rightarrow> ('p, 't) library \<Rightarrow> pystr \<Rightarrow> py_error + pystr option" where
  "infer_tokenizer_classname G lib pretrained_model_name_or_path =
     (case load_config G lib pretrained_model_name_or_path of
        Inl finished \<Rightarrow> finished
      | Inr (config, model_type_var, tokenizer_classname_var) \<Rightarrow>
          (case read_local tokenizer_classname_var of
             Inl e \<Rightarrow> Inl e
           | Inr tokenizer_classname \<Rightarrow>
               if tokenizer_classname = None \<or> tokenizer_classname = Some []
               then
                 (case read_local model_type_var of
                    Inl e \<Rightarrow> Inl e
                  | Inr mt \<Rightarrow>
                      if mt = py ''dpr''
                      then
                        (case architectures config of
                           None \<Rightarrow> Inl TypeError
                         | Some [] \<Rightarrow> Inl IndexError
                         | Some (arch # _) \<Rightarrow>
                             if arch = py ''DPRQuestionEncoder''
                             then Inr (Some (py ''DPRQuestionEncoderTokenizer''))
                             else if arch = py ''DPRContextEncoder''
                             then Inr (Some (py ''DPRContextEncoderTokenizer''))
                             else if arch = py ''DPRReader''
                             then Inl NotImplementedError
                             else Inr tokenizer_classname)
                      else
                        (let candidates =
                               map snd (filter (\<lambda>(key, value).
                                 contains key pretrained_model_name_or_path)
                                 (TOKENIZERS_STRING_HINTS lib))
                         in case candidates of
                              [] \<Rightarrow> Inl ValueError
                            | candidate # _ \<Rightarrow>
                                if candidate = py ''Roberta''
                                   \<and> contains (py ''mlm'') (lower pretrained_model_name_or_path)
                                then Inl NotImplementedError
                                else Inr (Some candidate)))
               else Inr tokenizer_classname))"

text \<open>
  Lines 39 to 76. Every exception raised inside the \<^verbatim>\<open>try\<close> is replaced by
  \<^verbatim>\<open>ModelingError\<close>; \<^verbatim>\<open>None + suffix\<close> raises \<^verbatim>\<open>TypeError\<close> there when the inferred class name
  is \<^verbatim>\<open>None\<close>.
\<close>

definition get_tokenizer ::
  "module_names \<Rightarrow> ('p, 't) library \<Rightarrow> pystr \<Rightarrow> pystr option \<Rightarrow> bool \<Rightarrow> py_error + 't" where
  "get_tokenizer G lib pretrained_model_name_or_path tokenizer_classname use_fast =
     (case (case tokenizer_classname of
              None \<Rightarrow> infer_tokenizer_classname G lib pretrained_model_name_or_path
            | Some name \<Rightarrow> Inr (Some name)) of
        Inl e \<Rightarrow> Inl ModelingError
      | Inr None \<Rightarrow> Inl ModelingError
      | Inr (Some name) \<Rightarrow>
          (let suffix = (if use_fast then py ''TokenizerFast'' else py ''Tokenizer'');
               params = TOKENIZERS_PARAMS lib name
           in case class_from_pretrained lib (name @ suffix)
                     pretrained_model_name_or_path params of
                Inl e \<Rightarrow> Inl ModelingError
              | Inr tokenizer \<Rightarrow> Inr tokenizer))"

section \<open>tokenize_batch_question_answering\<close>

text \<open>
  The input dictionaries and the \<^verbatim>\<open>SampleBasket\<close> built from them. The keys the code reads
  are fields, so no \<^verbatim>\<open>KeyError\<close> arises; \<open>context_text\<close> is the key \<^verbatim>\<open>"context"\<close>,
  \<open>qa_id\<close> the key \<^verbatim>\<open>"id"\<close>, \<open>raw_answers\<close> the key
  \<^verbatim>\<open>"answers"\<close> of \<^verbatim>\<open>raw\<close>. The answers are handed on as they are.
\<close>

record 'ans qa =
  question :: pystr
  qa_id :: pystr
  answers :: 'ans

record 'ans pre_basket =
  context_text :: pystr
  qas :: "'ans qa list"

record 'ans raw =
  document_text :: pystr
  document_tokens :: "int list"
  document_offsets :: "nat list"
  document_start_of_word :: "int list"
  question_text :: pystr
  question_tokens :: "int list"
  question_offsets :: "nat list"
  question_start_of_word :: "int list"
  raw_answers :: 'ans
  document_tokens_strings :: "pystr list"
  question_tokens_strings :: "pystr list"

record 'ans sample_basket =
  raw :: "'ans raw"
  id_internal :: pystr
  id_external :: pystr
  samples :: "unit option"

text \<open>\<^verbatim>\<open>str\<close> of an integer, as the f-string of line 181 formats it: decimal digits.\<close>

fun str_nat :: "nat \<Rightarrow> pystr" where
  "str_nat n = (if n < 10 then [48 + n] else str_nat (n div 10) @ [48 + n mod 10])"

declare str_nat.simps [simp del]

definition str_int :: "int \<Rightarrow> pystr" where
  "str_int i = (if i < 0 then 45 # str_nat (nat (- i)) else str_nat (nat i))"

text \<open>Indexing a list with an index that is not negative.\<close>

definition py_index :: "'b list \<Rightarrow> nat \<Rightarrow> py_error + 'b" where
  "py_index xs i = (if i < length xs then Inr (xs ! i) else Inl IndexError)"

text \<open>
  The subtraction of \<^verbatim>\<open>np.ediff1d\<close> on an array of word indices in which a special token
  has \<^verbatim>\<open>None\<close>: it raises \<^verbatim>\<open>TypeError\<close> on \<^verbatim>\<open>None\<close>. A word index is below the length of the
  text, so the 64-bit integers of numpy do not wrap.
\<close>

fun ediff1d :: "int option list \<Rightarrow> py_error + int list" where
  "ediff1d (Some a # Some b # ws) =
     (case ediff1d (Some b # ws) of Inl e \<Rightarrow> Inl e | Inr r \<Rightarrow> Inr ((b - a) # r))"
| "ediff1d (a # b # ws) = Inl TypeError"
| "ediff1d ws = Inr []"

text \<open>\<^verbatim>\<open>_get_start_of_word_QA\<close> (lines 201 to 204).\<close>

definition get_start_of_word_QA :: "nat option list \<Rightarrow> py_error + int list" where
  "get_start_of_word_QA word_ids =
     (case ediff1d (map (map_option int) word_ids) of
        Inl e \<Rightarrow> Inl e
      | Inr d \<Rightarrow> Inr (1 # d))"

text \<open>The loop of lines 161 to 163 over the encodings of the documents.\<close>

fun start_of_words_loop :: "encoding list \<Rightarrow> int list list \<Rightarrow> py_error + int list list" where
  "start_of_words_loop [] start_of_words_batch = Inr start_of_words_batch"
| "start_of_words_loop (e # rest) start_of_words_batch =
     (case get_start_of_word_QA (words e) of
        Inl err \<Rightarrow> Inl err
      | Inr s \<Rightarrow> start_of_words_loop rest (start_of_words_batch @ [s]))"

text \<open>
  The body of the inner loop (lines 169 to 197) for question \<open>q\<close> with index \<open>i_q\<close> of
  document \<open>i_doc\<close> with text \<open>doc_text\<close>. \<open>encs\<close> is the batch encoding of the documents: \<^verbatim>\<open>tokenids_batch\<close>,
  \<^verbatim>\<open>offsets_batch\<close> and \<^verbatim>\<open>.encodings\<close> are its ids, first offsets and encodings.
\<close>

definition make_basket ::
  "'a tokenizer \<Rightarrow> int list \<Rightarrow> encoding list \<Rightarrow> int list list \<Rightarrow> nat \<Rightarrow> pystr \<Rightarrow> nat
    \<Rightarrow> 'ans qa \<Rightarrow> py_error + 'ans sample_basket" where
  "make_basket tokenizer indices encs start_of_words_batch i_doc doc_text i_q q =
     (let q_text = question q;
          tokenized_q = encode_plus tokenizer q_text False;
          q_tokenids = input_ids tokenized_q;
          q_offsets = map fst (offset_mapping tokenized_q)
      in case get_start_of_word_QA (words tokenized_q) of
           Inl e \<Rightarrow> Inl e
         | Inr q_sow \<Rightarrow>
             (case py_index indices i_doc of
                Inl e \<Rightarrow> Inl e
              | Inr index \<Rightarrow>
                  (let external_id = qa_id q;
                       internal_id = str_int index @ py ''-'' @ str_nat i_q
                   in case py_index encs i_doc of
                        Inl e \<Rightarrow> Inl e
                      | Inr enc \<Rightarrow>
                          (case py_index start_of_words_batch i_doc of
                             Inl e \<Rightarrow> Inl e
                           | Inr doc_sow \<Rightarrow>
                               Inr \<lparr> raw =
                                       \<lparr> document_text = doc_text,
                                         document_tokens = input_ids enc,
                                         document_offsets = map fst (offset_mapping enc),
                                         document_start_of_word = doc_sow,
                                         question_text = q_text,
                                         question_tokens = q_tokenids,
                                         question_offsets = q_offsets,
                                         question_start_of_word = q_sow,
                                         raw_answers = answers q,
                                         document_tokens_strings = enc_tokens enc,
                                         question_tokens_strings = enc_tokens tokenized_q \<rparr>,
                                     id_internal = internal_id,
                                     id_external = external_id,
                                     samples = None \<rparr>))))"

text \<open>The inner loop (line 168) over the questions of one document.\<close>

fun question_loop ::
  "'a tokenizer \<Rightarrow> int list \<Rightarrow> encoding list \<Rightarrow> int list list \<Rightarrow> nat \<Rightarrow> pystr \<Rightarrow> nat
    \<Rightarrow> 'ans qa list \<Rightarrow> 'ans sample_basket list \<Rightarrow> py_error + 'ans sample_basket list" where
  "question_loop tokenizer indices encs sows i_doc doc_text i_q [] baskets = Inr baskets"
| "question_loop tokenizer indices encs sows i_doc doc_text i_q (q # rest) baskets =
     (case make_basket tokenizer indices encs sows i_doc doc_text i_q q of
        Inl e \<Rightarrow> Inl e
      | Inr basket \<Rightarrow>
          question_loop tokenizer indices encs sows i_doc doc_text (i_q + 1) rest
            (baskets @ [basket]))"

text \<open>The outer loop (line 165) over the documents.\<close>

fun document_loop ::
  "'a tokenizer \<Rightarrow> int list \<Rightarrow> encoding list \<Rightarrow> int list list \<Rightarrow> nat
    \<Rightarrow> 'ans pre_basket list \<Rightarrow> 'ans sample_basket list
    \<Rightarrow> py_error + 'ans sample_basket list" where
  "document_loop tokenizer indices encs sows i_doc [] baskets = Inr baskets"
| "document_loop tokenizer indices encs sows i_doc (d # rest) baskets =
     (case question_loop tokenizer indices encs sows i_doc (context_text d) 0 (qas d) baskets of
        Inl e \<Rightarrow> Inl e
      | Inr baskets' \<Rightarrow>
          document_loop tokenizer indices encs sows (i_doc + 1) rest baskets')"

text \<open>
  Lines 130 to 198. The two \<^verbatim>\<open>assert\<close> statements come first; the documents are encoded
  in one batch without special tokens.
\<close>

definition tokenize_batch_question_answering ::
  "'ans pre_basket list \<Rightarrow> 'a tokenizer \<Rightarrow> int list \<Rightarrow> py_error + 'ans sample_basket list" where
  "tokenize_batch_question_answering pre_baskets tokenizer indices =
     (if length indices \<noteq> length pre_baskets then Inl AssertionError
      else if \<not> is_fast tokenizer then Inl AssertionError
      else
        (let texts = map context_text pre_baskets;
             tokenized_docs_batch = batch_encode_plus tokenizer texts False
         in case start_of_words_loop tokenized_docs_batch [] of
              Inl e \<Rightarrow> Inl e
            | Inr start_of_words_batch \<Rightarrow>
                document_loop tokenizer indices tokenized_docs_batch start_of_words_batch
                  0 pre_baskets []))"

section \<open>tokenize_with_metadata\<close>

text \<open>
  \<^verbatim>\<open>re.sub(r"\s", " ", text)\<close> (line 229) replaces every match of \<^verbatim>\<open>\s\<close>, one character, by
  one space. For a \<^verbatim>\<open>str\<close> pattern \<^verbatim>\<open>\s\<close> matches the Unicode whitespace characters, the
  code points listed here.
\<close>

definition whitespace_chars :: "pychar list" where
  "whitespace_chars =
     [9, 10, 11, 12, 13, 28, 29, 30, 31, 32, 133, 160, 5760,
      8192, 8193, 8194, 8195, 8196, 8197, 8198, 8199, 8200, 8201, 8202,
      8232, 8233, 8239, 8287, 12288]"

definition isspace :: "pychar \<Rightarrow> bool" where
  "isspace c = (c \<in> set whitespace_chars)"

definition sub_whitespace :: "pystr \<Rightarrow> pystr" where
  "sub_whitespace text = map (\<lambda>c. if isspace c then 32 else c) text"

text \<open>
  \<^verbatim>\<open>text.split(" ")\<close> (line 259): the pieces between the single spaces, empty pieces
  included; the empty text gives one empty piece.
\<close>

fun split_loop :: "pychar \<Rightarrow> pystr \<Rightarrow> pystr \<Rightarrow> pystr list" where
  "split_loop sep piece [] = [piece]"
| "split_loop sep piece (c # cs) =
     (if c = sep then piece # split_loop sep [] cs else split_loop sep (piece @ [c]) cs)"

definition split_space :: "pystr \<Rightarrow> pystr list" where
  "split_space text = split_loop 32 [] text"

text \<open>The loop of lines 260 to 264.\<close>

fun word_offsets_loop :: "pystr list \<Rightarrow> nat \<Rightarrow> nat list \<Rightarrow> nat list" where
  "word_offsets_loop [] cumulated word_offsets = word_offsets"
| "word_offsets_loop (word # rest) cumulated word_offsets =
     word_offsets_loop rest (cumulated + (length word + 1)) (word_offsets @ [cumulated])"

text \<open>
  \<^verbatim>\<open>re.sub(SPECIAL_TOKENIZER_CHARS, "", tok)\<close> (line 364) with the pattern
  \<^verbatim>\<open>^(##|U+0120|U+2581)\<close>: the pattern matches at the start of the token only, so one
  leading marker is removed. 35 is the number sign, 288 is U+0120, 9601 is U+2581.
\<close>

fun strip_special :: "pystr \<Rightarrow> pystr" where
  "strip_special (c # d # rest) =
     (if c = 35 \<and> d = 35 then rest
      else if c = 288 \<or> c = 9601 then d # rest
      else c # d # rest)"
| "strip_special [c] = (if c = 288 \<or> c = 9601 then [] else [c])"
| "strip_special [] = []"

text \<open>
  The inner loop of \<^verbatim>\<open>_words_to_tokens\<close> (lines 359 to 374) over the subword tokens of one
  word. \<^verbatim>\<open>tokenizer.special_tokens_map["unk_token"]\<close> raises \<^verbatim>\<open>KeyError\<close> when the tokenizer
  has no unknown token.
\<close>

fun subword_loop ::
  "'a tokenizer \<Rightarrow> pystr list \<Rightarrow> nat \<Rightarrow> bool \<Rightarrow> nat list \<Rightarrow> bool list
    \<Rightarrow> py_error + (nat list \<times> bool list)" where
  "subword_loop tokenizer [] w_off first_tok token_offsets start_of_word =
     Inr (token_offsets, start_of_word)"
| "subword_loop tokenizer (tok # rest) w_off first_tok token_offsets start_of_word =
     (let token_offsets = token_offsets @ [w_off];
          orig_tok = strip_special tok
      in case unk_token tokenizer of
           None \<Rightarrow> Inl KeyError
         | Some unk \<Rightarrow>
             (let w_off = (if orig_tok = unk then w_off + 1 else w_off + length orig_tok)
              in if first_tok
                 then subword_loop tokenizer rest w_off False token_offsets
                        (start_of_word @ [True])
                 else subword_loop tokenizer rest w_off first_tok token_offsets
                        (start_of_word @ [False])))"

text \<open>
  The outer loop of \<^verbatim>\<open>_words_to_tokens\<close> (lines 334 to 374) over \<^verbatim>\<open>zip(words, word_offsets)\<close>.
  From the second tokenized word on, line 349 reads the global name
  \<^verbatim>\<open>RobertaTokenizer\<close>. The counter \<^verbatim>\<open>idx\<close> only feeds the log and is left out.
\<close>

fun words_loop ::
  "module_names \<Rightarrow> 'a tokenizer \<Rightarrow> (pystr \<times> nat) list \<Rightarrow> pystr list \<Rightarrow> nat list \<Rightarrow> bool list
    \<Rightarrow> py_error + (pystr list \<times> nat list \<times> bool list)" where
  "words_loop G tokenizer [] toks token_offsets start_of_word =
     Inr (toks, token_offsets, start_of_word)"
| "words_loop G tokenizer ((w, w_off) # rest) toks token_offsets start_of_word =
     (if length w = 0 then words_loop G tokenizer rest toks token_offsets start_of_word
      else
        case (if length toks = 0 then Inr (tokenize tokenizer w False)
              else (case RobertaTokenizer G of
                      None \<Rightarrow> Inl NameError
                    | Some roberta \<Rightarrow>
                        if tok_type tokenizer = roberta
                        then Inr (tokenize tokenizer w True)
                        else Inr (tokenize tokenizer w False))) of
          Inl e \<Rightarrow> Inl e
        | Inr tokens_word \<Rightarrow>
            if length tokens_word = 0
            then words_loop G tokenizer rest toks token_offsets start_of_word
            else
              (case subword_loop tokenizer tokens_word w_off True token_offsets
                      start_of_word of
                 Inl e \<Rightarrow> Inl e
               | Inr (token_offsets', start_of_word') \<Rightarrow>
                   words_loop G tokenizer rest (toks @ tokens_word) token_offsets'
                     start_of_word'))"

text \<open>\<^verbatim>\<open>_words_to_tokens\<close> (lines 320 to 376); a name cannot start with an underscore here.\<close>

definition words_to_tokens ::
  "module_names \<Rightarrow> pystr list \<Rightarrow> nat list \<Rightarrow> 'a tokenizer
    \<Rightarrow> py_error + (pystr list \<times> nat list \<times> bool list)" where
  "words_to_tokens G wordlist word_offsets tokenizer =
     words_loop G tokenizer (zip wordlist word_offsets) [] [] []"

text \<open>
  \<^verbatim>\<open>words += 1\<close> on the array of word indices: \<^verbatim>\<open>TypeError\<close> when an entry is \<^verbatim>\<open>None\<close>.
\<close>

fun np_add :: "int \<Rightarrow> int option list \<Rightarrow> py_error + int option list" where
  "np_add k [] = Inr []"
| "np_add k (None # ws) = Inl TypeError"
| "np_add k (Some w # ws) =
     (case np_add k ws of Inl e \<Rightarrow> Inl e | Inr r \<Rightarrow> Inr (Some (w + k) # r))"

text \<open>
  Lines 238 to 244. \<^verbatim>\<open>words[0] = -1\<close> raises \<^verbatim>\<open>IndexError\<close> on an empty array and
  \<^verbatim>\<open>words[-2]\<close> on an array of one element.
\<close>

definition fast_start_of_word :: "nat option list \<Rightarrow> py_error + int list" where
  "fast_start_of_word word_ids =
     (let ws = map (map_option int) word_ids;
          n = length ws
      in if n = 0 then Inl IndexError
         else
           (let ws = ws[0 := Some (- 1)]
            in if n < 2 then Inl IndexError
               else
                 (let ws = ws[n - 1 := ws ! (n - 2)]
                  in case np_add 1 ws of
                       Inl e \<Rightarrow> Inl e
                     | Inr ws \<Rightarrow>
                         (case ediff1d ws of
                            Inl e \<Rightarrow> Inl e
                          | Inr d \<Rightarrow> Inr (0 # d)))))"

text \<open>
  The dictionary that \<^verbatim>\<open>tokenize_with_metadata\<close> returns. On the fast path the tokens are
  ids and the start-of-word entries are integers (differences of word indices); on the
  slow path the tokens are strings and the entries are booleans. \<open>truthy\<close> is Python's
  truth value of an entry.
\<close>

datatype pytoken = TokenId int | TokenStr pystr

datatype pyflag = PyInt int | PyBool bool


record tokenized_dict =
  tokens :: "pytoken list"
  offsets :: "nat list"
  start_of_word :: "pyflag list"

text \<open>Lines 207 to 269. The fast path calls \<^verbatim>\<open>encode_plus\<close> with special tokens added.\<close>

definition tokenize_with_metadata ::
  "module_names \<Rightarrow> pystr \<Rightarrow> 'a tokenizer \<Rightarrow> py_error + tokenized_dict" where
  "tokenize_with_metadata G text0 tokenizer =
     (let text = sub_whitespace text0
      in if is_fast tokenizer
         then
           (let tokenized2 = encode_plus tokenizer text True;
                tokens2 = input_ids tokenized2;
                offsets2 = map fst (offset_mapping tokenized2)
            in case fast_start_of_word (words tokenized2) of
                 Inl e \<Rightarrow> Inl e
               | Inr start_of_word2 \<Rightarrow>
                   Inr \<lparr> tokens = map TokenId tokens2, offsets = offsets2,
                         start_of_word = map PyInt start_of_word2 \<rparr>)
         else
           (let wordlist = split_space text;
                word_offsets = word_offsets_loop wordlist 0 []
            in case words_to_tokens G wordlist word_offsets tokenizer of
                 Inl e \<Rightarrow> Inl e
               | Inr (toks, offs, sow) \<Rightarrow>
                   Inr \<lparr> tokens = map TokenStr toks, offsets = offs,
                         start_of_word = map PyBool sow \<rparr>))"

section \<open>truncate_sequences\<close>

text \<open>
  Lines 272 to 317. \<^verbatim>\<open>if max_seq_len and total_len > max_seq_len\<close>: an integer is true when
  it is not zero. The result of the library's method is returned as it is, and an
  exception it raises passes through.
\<close>

definition truncate_sequences ::
  "'a list \<Rightarrow> 'a list option \<Rightarrow> 'a tokenizer \<Rightarrow> int \<Rightarrow> pystr \<Rightarrow> bool \<Rightarrow> int
    \<Rightarrow> py_error + ('a list \<times> 'a list option \<times> 'a list)" where
  "truncate_sequences seq_a seq_b tokenizer max_seq_len truncation_strategy
      with_special_tokens stride =
    (let pair = (seq_b \<noteq> None);
         len_a = int (length seq_a);
         len_b = (case seq_b of Some b \<Rightarrow> int (length b) | None \<Rightarrow> 0);
         num_special_tokens =
           (if with_special_tokens then int (num_special_tokens_to_add tokenizer pair) else 0);
         total_len = len_a + len_b + num_special_tokens
     in if max_seq_len \<noteq> 0 \<and> total_len > max_seq_len
        then tokenizer_truncate_sequences tokenizer seq_a seq_b (total_len - max_seq_len)
               truncation_strategy stride
        else Inr (seq_a, seq_b, []))"

text \<open>The total length that \<open>truncate_sequences\<close> compares with \<open>max_seq_len\<close>.\<close>

definition total_len ::
  "'a list \<Rightarrow> 'a list option \<Rightarrow> 'a tokenizer \<Rightarrow> bool \<Rightarrow> int" where
  "total_len seq_a seq_b tokenizer with_special_tokens =
     int (length seq_a) + (case seq_b of Some b \<Rightarrow> int (length b) | None \<Rightarrow> 0)
       + (if with_special_tokens
          then int (num_special_tokens_to_add tokenizer (seq_b \<noteq> None)) else 0)"

section \<open>Predicates and definitions used in the statements\<close>

text \<open>
  The invariant of the outer loop of \<^verbatim>\<open>_words_to_tokens\<close>: the three lists have one length,
  and the first start-of-word entry, when there is one, is \<^verbatim>\<open>True\<close>.
\<close>

definition aligned_state :: "pystr list \<Rightarrow> nat list \<Rightarrow> bool list \<Rightarrow> bool" where
  "aligned_state toks toffs sow =
     (length toks = length toffs \<and> length toffs = length sow \<and> (sow \<noteq> [] \<longrightarrow> hd sow))"



section \<open>Inputs for the examples\<close>

text \<open>
  \<open>word_tokenizer\<close> is a slow tokenizer whose splitter returns each word as one token, and
  whose truncation method raises whatever it is asked. \<open>fast_tokenizer\<close> is a fast
  tokenizer that reports one token per character, between a leading and a trailing
  special token when they are asked for: the id of a token is its code point, its word
  index grows after every space.
\<close>

definition word_tokenizer :: "int tokenizer" where
  "word_tokenizer =
     \<lparr> is_fast = False, tok_type = py ''BertTokenizer'',
       tokenize = (\<lambda>w add_prefix_space. [w]), unk_token = Some (py ''[UNK]''),
       encode_plus = (\<lambda>text add_special_tokens. []),
       batch_encode_plus = (\<lambda>texts add_special_tokens. []),
       num_special_tokens_to_add = (\<lambda>pair. if pair then 3 else 2),
       tokenizer_truncate_sequences = (\<lambda>ids pair_ids n strategy stride. Inl ValueError) \<rparr>"

fun char_entries :: "nat \<Rightarrow> nat \<Rightarrow> pystr \<Rightarrow> encoding" where
  "char_entries k i [] = []"
| "char_entries k i (c # cs) =
     \<lparr> entry_id = int c, entry_offsets = (i, i + 1), entry_word = Some k, entry_token = [c] \<rparr>
       # char_entries (if c = 32 then k + 1 else k) (i + 1) cs"

definition special_entry :: "int \<Rightarrow> pystr \<Rightarrow> token_entry" where
  "special_entry n s =
     \<lparr> entry_id = n, entry_offsets = (0, 0), entry_word = None, entry_token = s \<rparr>"

definition char_encoding :: "pystr \<Rightarrow> bool \<Rightarrow> encoding" where
  "char_encoding text add_special_tokens =
     (if add_special_tokens
      then [special_entry 101 (py ''[CLS]'')] @ char_entries 0 0 text
             @ [special_entry 102 (py ''[SEP]'')]
      else char_entries 0 0 text)"

definition fast_tokenizer :: "int tokenizer" where
  "fast_tokenizer =
     \<lparr> is_fast = True, tok_type = py ''BertTokenizerFast'',
       tokenize = (\<lambda>w add_prefix_space. map (\<lambda>c. [c]) w), unk_token = Some (py ''[UNK]''),
       encode_plus = char_encoding,
       batch_encode_plus = (\<lambda>texts add_special_tokens.
         map (\<lambda>t. char_encoding t add_special_tokens) texts),
       num_special_tokens_to_add = (\<lambda>pair. if pair then 3 else 2),
       tokenizer_truncate_sequences = (\<lambda>ids pair_ids n strategy stride. Inl ValueError) \<rparr>"

text \<open>
  \<open>lenient_tokenizer\<close> is \<open>word_tokenizer\<close> with a truncation method that removes nothing
  and raises nothing.
\<close>

definition lenient_tokenizer :: "int tokenizer" where
  "lenient_tokenizer =
     word_tokenizer\<lparr>tokenizer_truncate_sequences :=
       (\<lambda>ids pair_ids n strategy stride. Inr (ids, pair_ids, []))\<rparr>"

text \<open>
  A library for the resolver: the configuration of \<^verbatim>\<open>bert-base-uncased\<close> loads from the
  model name, that of the saved model \<^verbatim>\<open>my_model\<close> from its
  \<^verbatim>\<open>language_model_config.json\<close> only, and no other configuration can be loaded. The
  tokenizer it constructs is the name of the class it was asked for.
\<close>

definition hub_library :: "(unit, pystr) library" where
  "hub_library =
     \<lparr> AutoConfig_from_pretrained = (\<lambda>path.
         if path = py ''bert-base-uncased''
         then Inr \<lparr> model_type = py ''bert'', architectures = Some [py ''BertForMaskedLM''] \<rparr>
         else if path = py ''my_model/language_model_config.json''
         then Inr \<lparr> model_type = py ''bert'', architectures = None \<rparr>
         else Inl OSError),
       TOKENIZERS_MAPPING = [py ''bert'' \<mapsto> py ''Bert'', py ''roberta'' \<mapsto> py ''Roberta''],
       TOKENIZERS_STRING_HINTS = [(py ''roberta'', py ''Roberta''), (py ''bert'', py ''Bert'')],
       TOKENIZERS_PARAMS = Map.empty,
       class_from_pretrained = (\<lambda>name path params. Inr name) \<rparr>"

text \<open>
  Two batches for \<open>tokenize_batch_question_answering\<close>: one document with two questions, and
  one document with one question. An answer is its text and its start.
\<close>

definition first_batch :: "(pystr \<times> nat) list pre_basket list" where
  "first_batch =
     [\<lparr> context_text = py ''a b'',
        qas = [\<lparr> question = py ''a'', qa_id = py ''q1'', answers = [(py ''a'', 0)] \<rparr>,
               \<lparr> question = py ''b'', qa_id = py ''q2'', answers = [(py ''b'', 2)] \<rparr>] \<rparr>]"

definition second_batch :: "(pystr \<times> nat) list pre_basket list" where
  "second_batch =
     [\<lparr> context_text = py ''c'',
        qas = [\<lparr> question = py ''c'', qa_id = py ''q3'', answers = [] \<rparr>] \<rparr>]"

section \<open>Properties of truncate_sequences\<close>

lemma truncate_sequences_total_len:
  "truncate_sequences seq_a seq_b tk max_seq_len strategy with_special_tokens stride =
     (if max_seq_len \<noteq> 0 \<and> total_len seq_a seq_b tk with_special_tokens > max_seq_len
      then tokenizer_truncate_sequences tk seq_a seq_b
             (total_len seq_a seq_b tk with_special_tokens - max_seq_len) strategy stride
      else Inr (seq_a, seq_b, []))"
  unfolding truncate_sequences_def total_len_def Let_def by (rule refl)

text \<open>
  C10. When \<open>max_seq_len\<close> is 0, or the total length (both sequences and, when asked for,
  the special tokens to add) does not exceed \<open>max_seq_len\<close>, \<open>truncate_sequences\<close> returns
  both sequences unchanged with an empty overflow, whatever the strategy; and it does so
  whatever the tokenizer's truncation method is, so that method is not called.
\<close>

theorem truncate_sequences_within_limit:
  assumes "max_seq_len = 0 \<or> total_len seq_a seq_b tk with_special_tokens \<le> max_seq_len"
  shows "truncate_sequences seq_a seq_b tk max_seq_len strategy with_special_tokens stride
           = Inr (seq_a, seq_b, [])
         \<and> (\<forall>prim. truncate_sequences seq_a seq_b
                 (tk\<lparr>tokenizer_truncate_sequences := prim\<rparr>)
                 max_seq_len strategy with_special_tokens stride = Inr (seq_a, seq_b, []))"
  using assms by (auto simp: truncate_sequences_def total_len_def Let_def)

theorem truncate_sequences_within_limit_witness:
  "total_len [1, 2, 3] (Some [4, 5]) word_tokenizer True \<le> 8
   \<and> truncate_sequences [1, 2, 3] (Some [4, 5]) word_tokenizer 8
         (py ''do_not_truncate'') True 0 = Inr ([1, 2, 3], Some [4, 5], [])"
proof -
  have h: "total_len [1, 2, 3] (Some [4, 5]) word_tokenizer True \<le> 8"
    by (simp add: total_len_def word_tokenizer_def)
  from truncate_sequences_within_limit [of 8 "[1, 2, 3]" "Some [4, 5]" word_tokenizer True
      "py ''do_not_truncate''" 0] h
  show ?thesis by blast
qed

text \<open>
  \<open>truncate_sequences\<close> never looks at the strategy and has no \<^verbatim>\<open>raise\<close> of its own: past
  the guard of line 309 its outcome is the outcome of the tokenizer's truncation method,
  for every strategy.
\<close>

lemma truncate_sequences_delegates:
  assumes "max_seq_len \<noteq> 0"
    and "total_len seq_a seq_b tk with_special_tokens > max_seq_len"
  shows "truncate_sequences seq_a seq_b tk max_seq_len strategy with_special_tokens stride
         = tokenizer_truncate_sequences tk seq_a seq_b
             (total_len seq_a seq_b tk with_special_tokens - max_seq_len) strategy stride"
  using assms by (simp add: truncate_sequences_total_len)

text \<open>
  With \<open>max_seq_len = 0\<close> the guard is false and nothing is checked: five elements exceed
  the limit 0 and come back as they are, even with a truncation method that would raise.
\<close>

lemma do_not_truncate_zero_limit:
  "total_len [1, 2, 3, 4, 5] None word_tokenizer False > 0
   \<and> tokenizer_truncate_sequences word_tokenizer [1, 2, 3, 4, 5] None 5
         (py ''do_not_truncate'') 0 = Inl ValueError
   \<and> truncate_sequences [1, 2, 3, 4, 5] None word_tokenizer 0
         (py ''do_not_truncate'') False 0 = Inr ([1, 2, 3, 4, 5], None, [])"
  by (simp add: truncate_sequences_def total_len_def word_tokenizer_def)

text \<open>
  C8. The claim, and the docstring of \<open>truncate_sequences\<close> (line 291): with the strategy
  \<^verbatim>\<open>do_not_truncate\<close> and a total length above \<open>max_seq_len\<close> an error is raised. Five
  elements with the limit 3 and a tokenizer whose truncation method removes nothing and
  raises nothing for this strategy: the five elements come back, over length, and no
  error is raised.
\<close>

theorem do_not_truncate_returns_over_length:
  "total_len [1, 2, 3, 4, 5] None lenient_tokenizer False > 3
   \<and> truncate_sequences [1, 2, 3, 4, 5] None lenient_tokenizer 3
         (py ''do_not_truncate'') False 0 = Inr ([1, 2, 3, 4, 5], None, [])"
  by (simp add: truncate_sequences_def total_len_def lenient_tokenizer_def word_tokenizer_def)

section \<open>Properties of the tokenizer resolver\<close>

text \<open>
  When the first call of \<^verbatim>\<open>AutoConfig.from_pretrained\<close> succeeds, no assignment to
  \<^verbatim>\<open>tokenizer_classname\<close> has run when line 101 reads it: the call ends with
  \<^verbatim>\<open>UnboundLocalError\<close>, whatever the tables hold, and \<open>get_tokenizer\<close> with
  \<^verbatim>\<open>ModelingError\<close>.
\<close>

lemma infer_after_primary_load:
  assumes "AutoConfig_from_pretrained lib path = Inr cfg"
  shows "infer_tokenizer_classname G lib path = Inl UnboundLocalError"
  using assms by (simp add: infer_tokenizer_classname_def load_config_def)

lemma get_tokenizer_after_primary_load:
  assumes "AutoConfig_from_pretrained lib path = Inr cfg"
  shows "get_tokenizer G lib path None use_fast = Inl ModelingError"
  using infer_after_primary_load [OF assms] by (simp add: get_tokenizer_def)

text \<open>
  The path on which the mapping is used: the first load raises \<^verbatim>\<open>OSError\<close> and the second,
  of \<^verbatim>\<open>language_model_config.json\<close>, succeeds.
\<close>

lemma infer_after_secondary_load:
  assumes "AutoConfig_from_pretrained lib path = Inl OSError"
    and "AutoConfig_from_pretrained lib (path @ py ''/language_model_config.json'') = Inr cfg"
    and "TOKENIZERS_MAPPING lib (model_type cfg) = Some name" and "name \<noteq> []"
  shows "infer_tokenizer_classname G lib path = Inr (Some name)"
  using assms by (simp add: infer_tokenizer_classname_def load_config_def)

text \<open>
  When neither configuration can be loaded, line 96 reads the global name \<^verbatim>\<open>Tokenizer\<close>,
  which the module does not bind: the call ends with \<^verbatim>\<open>NameError\<close>, whatever the name of
  the model and the table of hints.
\<close>

lemma infer_without_config:
  assumes "AutoConfig_from_pretrained lib path = Inl OSError"
    and "AutoConfig_from_pretrained lib (path @ py ''/language_model_config.json'') = Inl e"
  shows "infer_tokenizer_classname module_globals lib path = Inl NameError"
  using assms
  by (simp add: infer_tokenizer_classname_def load_config_def module_globals_def)

lemmas library_defs = hub_library_def py_def module_globals_def

text \<open>
  C1, at \<^verbatim>\<open>bert-base-uncased\<close>: the configuration loads from the model name and its model
  type \<^verbatim>\<open>bert\<close> has the entry \<^verbatim>\<open>Bert\<close> in the mapping, and the resolver raises instead of
  returning \<^verbatim>\<open>Bert\<close>.
\<close>

theorem resolver_primary_config_raises:
  "AutoConfig_from_pretrained hub_library (py ''bert-base-uncased'')
     = Inr \<lparr> model_type = py ''bert'', architectures = Some [py ''BertForMaskedLM''] \<rparr>
   \<and> TOKENIZERS_MAPPING hub_library (py ''bert'') = Some (py ''Bert'')
   \<and> infer_tokenizer_classname module_globals hub_library (py ''bert-base-uncased'')
       = Inl UnboundLocalError
   \<and> get_tokenizer module_globals hub_library (py ''bert-base-uncased'') None True
       = Inl ModelingError"
proof -
  have c: "AutoConfig_from_pretrained hub_library (py ''bert-base-uncased'')
     = Inr \<lparr> model_type = py ''bert'', architectures = Some [py ''BertForMaskedLM''] \<rparr>"
    by (simp add: library_defs)
  have m: "TOKENIZERS_MAPPING hub_library (py ''bert'') = Some (py ''Bert'')"
    by (simp add: library_defs)
  from c m infer_after_primary_load [OF c] get_tokenizer_after_primary_load [OF c]
  show ?thesis by simp
qed

text \<open>The saved model \<^verbatim>\<open>my_model\<close>, by the second load, resolves to \<^verbatim>\<open>Bert\<close>.\<close>

lemma resolver_secondary_config_example:
  "infer_tokenizer_classname module_globals hub_library (py ''my_model'') = Inr (Some (py ''Bert''))"
  by (simp add: infer_tokenizer_classname_def load_config_def library_defs)

text \<open>
  C2, at \<^verbatim>\<open>roberta-base\<close>: no configuration can be loaded, the name contains the hint
  \<^verbatim>\<open>roberta\<close>, and the resolver raises instead of returning \<^verbatim>\<open>Roberta\<close>.
\<close>

theorem resolver_string_hint_raises:
  "AutoConfig_from_pretrained hub_library (py ''roberta-base'') = Inl OSError
   \<and> AutoConfig_from_pretrained hub_library
        (py ''roberta-base'' @ py ''/language_model_config.json'') = Inl OSError
   \<and> contains (py ''roberta'') (py ''roberta-base'')
   \<and> infer_tokenizer_classname module_globals hub_library (py ''roberta-base'') = Inl NameError
   \<and> get_tokenizer module_globals hub_library (py ''roberta-base'') None True
       = Inl ModelingError"
proof -
  have a: "AutoConfig_from_pretrained hub_library (py ''roberta-base'') = Inl OSError"
    by (simp add: library_defs)
  have b: "AutoConfig_from_pretrained hub_library
        (py ''roberta-base'' @ py ''/language_model_config.json'') = Inl OSError"
    by (simp add: library_defs)
  have c: "contains (py ''roberta'') (py ''roberta-base'')"
    by (simp add: py_def)
  from a b c infer_without_config [OF a b] show ?thesis
    by (simp add: get_tokenizer_def)
qed

section \<open>Properties of tokenize_with_metadata\<close>

text \<open>
  The inner loop appends one offset and one flag per subword token, and the first flag
  it appends is the one it was started with.
\<close>

lemma subword_loop_appends:
  "subword_loop tk ts w_off f toffs sow = Inr (toffs', sow') \<Longrightarrow>
   \<exists>offs flags. toffs' = toffs @ offs \<and> sow' = sow @ flags
      \<and> length offs = length ts \<and> length flags = length ts
      \<and> (ts \<noteq> [] \<longrightarrow> hd flags = f)"
proof (induction ts arbitrary: w_off f toffs sow)
  case Nil
  then show ?case by simp
next
  case (Cons tok rest)
  from Cons.prems obtain unk where unk: "unk_token tk = Some unk"
    by (cases "unk_token tk") (simp_all add: Let_def)
  define w' where "w' = (if strip_special tok = unk then w_off + 1
                          else w_off + length (strip_special tok))"
  from Cons.prems unk
  have "subword_loop tk rest w' False (toffs @ [w_off]) (sow @ [f]) = Inr (toffs', sow')"
    by (cases f) (simp_all add: Let_def w'_def)
  from Cons.IH [OF this] obtain offs flags where
    r: "toffs' = (toffs @ [w_off]) @ offs" "sow' = (sow @ [f]) @ flags"
       "length offs = length rest" "length flags = length rest"
    by blast
  show ?case
  proof (intro exI conjI)
    show "toffs' = toffs @ (w_off # offs)" using r by simp
    show "sow' = sow @ (f # flags)" using r by simp
    show "length (w_off # offs) = length (tok # rest)" using r by simp
    show "length (f # flags) = length (tok # rest)" using r by simp
    show "tok # rest \<noteq> [] \<longrightarrow> hd (f # flags) = f" by simp
  qed
qed

lemma words_loop_aligned:
  "words_loop G tk ws toks toffs sow = Inr (toks', toffs', sow') \<Longrightarrow>
   aligned_state toks toffs sow \<Longrightarrow> aligned_state toks' toffs' sow'"
proof (induction ws arbitrary: toks toffs sow)
  case Nil
  then show ?case by simp
next
  case (Cons a ws)
  obtain w w_off where a: "a = (w, w_off)" by (cases a)
  show ?case
  proof (cases "length w = 0")
    case True
    with Cons.prems a show ?thesis by (auto intro: Cons.IH)
  next
    case False
    define call where "call =
      (if length toks = 0 then Inr (tokenize tk w False)
       else (case RobertaTokenizer G of
               None \<Rightarrow> Inl NameError
             | Some roberta \<Rightarrow>
                 if tok_type tk = roberta
                 then Inr (tokenize tk w True)
                 else Inr (tokenize tk w False)))"
    from Cons.prems(1) a False obtain tokens_word where tw: "call = Inr tokens_word"
      by (cases call) (simp_all add: call_def)
    show ?thesis
    proof (cases "length tokens_word = 0")
      case True
      with Cons.prems a False tw have
        "words_loop G tk ws toks toffs sow = Inr (toks', toffs', sow')"
        by (simp add: call_def)
      then show ?thesis using Cons.prems(2) by (rule Cons.IH)
    next
      case nonempty: False
      from Cons.prems(1) a False tw nonempty obtain toffs1 sow1 where
        sub: "subword_loop tk tokens_word w_off True toffs sow = Inr (toffs1, sow1)"
        and rest: "words_loop G tk ws (toks @ tokens_word) toffs1 sow1 = Inr (toks', toffs', sow')"
        by (cases "subword_loop tk tokens_word w_off True toffs sow")
           (auto simp: call_def)
      from subword_loop_appends [OF sub] obtain offs flags where
        r: "toffs1 = toffs @ offs" "sow1 = sow @ flags"
           "length offs = length tokens_word" "length flags = length tokens_word"
           "hd flags = True"
        using nonempty by auto
      from r nonempty have "flags \<noteq> []" by auto
      with r Cons.prems(2) have "aligned_state (toks @ tokens_word) toffs1 sow1"
        by (cases sow) (auto simp: aligned_state_def)
      with rest show ?thesis by (rule Cons.IH)
    qed
  qed
qed

lemma np_add_length: "np_add k ws = Inr r \<Longrightarrow> length r = length ws"
  by (induction k ws arbitrary: r rule: np_add.induct) (auto split: sum.splits)

lemma ediff1d_length: "ediff1d ws = Inr d \<Longrightarrow> length d = length ws - 1"
  by (induction ws arbitrary: d rule: ediff1d.induct) (auto split: sum.splits)

lemma fast_start_of_word_length:
  assumes "fast_start_of_word word_ids = Inr s"
  shows "length s = length word_ids"
proof -
  from assms have n: "2 \<le> length word_ids"
    by (auto simp: fast_start_of_word_def Let_def split: if_splits)
  from assms n show ?thesis
    by (auto simp: fast_start_of_word_def Let_def split: if_splits sum.splits
             dest!: np_add_length ediff1d_length)
qed




lemma words_to_tokens_aligned:
  "words_to_tokens G ws offs tk = Inr (toks, toffs, sow) \<Longrightarrow> aligned_state toks toffs sow"
  unfolding words_to_tokens_def
  by (erule words_loop_aligned) (simp add: aligned_state_def)

text \<open>
  C7. For every text and tokenizer, on the fast and on the slow path, the dictionary that
  \<open>tokenize_with_metadata\<close> returns has tokens, offsets and start-of-word entries of one
  length. This holds whatever the global names are bound to.
\<close>

theorem tokenize_with_metadata_equal_lengths:
  assumes "tokenize_with_metadata G text tk = Inr d"
  shows "length (tokens d) = length (offsets d)
         \<and> length (offsets d) = length (start_of_word d)"
proof (cases "is_fast tk")
  case True
  with assms obtain s where
    s: "fast_start_of_word (words (encode_plus tk (sub_whitespace text) True)) = Inr s"
    and d: "d = \<lparr> tokens = map TokenId (input_ids (encode_plus tk (sub_whitespace text) True)),
                  offsets = map fst (offset_mapping (encode_plus tk (sub_whitespace text) True)),
                  start_of_word = map PyInt s \<rparr>"
    by (auto simp: tokenize_with_metadata_def Let_def split: sum.splits)
  from fast_start_of_word_length [OF s] d show ?thesis
    by (simp add: input_ids_def offset_mapping_def words_def)
next
  case False
  with assms obtain toks offs sow where
    w: "words_to_tokens G (split_space (sub_whitespace text))
          (word_offsets_loop (split_space (sub_whitespace text)) 0 []) tk = Inr (toks, offs, sow)"
    and d: "d = \<lparr> tokens = map TokenStr toks, offsets = offs, start_of_word = map PyBool sow \<rparr>"
    by (auto simp: tokenize_with_metadata_def Let_def split: sum.splits)
  from words_to_tokens_aligned [OF w] d show ?thesis
    by (simp add: aligned_state_def)
qed

lemmas eval_defs = tokenize_with_metadata_def module_globals_def word_tokenizer_def
 fast_tokenizer_def char_encoding_def py_def sub_whitespace_def
  isspace_def whitespace_chars_def split_space_def words_to_tokens_def
  fast_start_of_word_def input_ids_def offset_mapping_def words_def enc_tokens_def
  special_entry_def

theorem tokenize_with_metadata_equal_lengths_witness:
  "(\<exists>d. tokenize_with_metadata module_globals (py ''a b'') fast_tokenizer = Inr d
        \<and> length (tokens d) = 5 \<and> length (offsets d) = 5 \<and> length (start_of_word d) = 5)
   \<and> (\<exists>d. tokenize_with_metadata module_globals (py ''Berlin'') word_tokenizer = Inr d
        \<and> length (tokens d) = 1 \<and> length (offsets d) = 1 \<and> length (start_of_word d) = 1)
   \<and> (\<exists>d. tokenize_with_metadata
              (module_globals\<lparr>RobertaTokenizer := Some (py ''RobertaTokenizer'')\<rparr>)
              (py ''Berlin is a city'') word_tokenizer = Inr d
        \<and> length (tokens d) = 4 \<and> length (offsets d) = 4 \<and> length (start_of_word d) = 4)"
proof -
  let ?f = "\<lparr> tokens = [TokenId 101, TokenId 97, TokenId 32, TokenId 98, TokenId 102],
                offsets = [0, 0, 1, 2, 0],
                start_of_word = [PyInt 0, PyInt 1, PyInt 0, PyInt 1, PyInt 0] \<rparr>"
  let ?s = "\<lparr> tokens = [TokenStr (py ''Berlin'')], offsets = [0],
                start_of_word = [PyBool True] \<rparr>"
  let ?b = "\<lparr> tokens = [TokenStr (py ''Berlin''), TokenStr (py ''is''), TokenStr (py ''a''),
                         TokenStr (py ''city'')],
                offsets = [0, 7, 10, 12],
                start_of_word = [PyBool True, PyBool True, PyBool True, PyBool True] \<rparr>"
  have f: "tokenize_with_metadata module_globals (py ''a b'') fast_tokenizer = Inr ?f"
    by (simp add: eval_defs)
  have s: "tokenize_with_metadata module_globals (py ''Berlin'') word_tokenizer = Inr ?s"
    by (simp add: eval_defs)
  have b: "tokenize_with_metadata
             (module_globals\<lparr>RobertaTokenizer := Some (py ''RobertaTokenizer'')\<rparr>)
             (py ''Berlin is a city'') word_tokenizer = Inr ?b"
    by (simp add: eval_defs)
  from tokenize_with_metadata_equal_lengths [OF f]
       tokenize_with_metadata_equal_lengths [OF s]
       tokenize_with_metadata_equal_lengths [OF b] f s b
  show ?thesis by simp
qed





text \<open>
  From the second tokenized word on, the outer loop of \<^verbatim>\<open>_words_to_tokens\<close> reads the name
  \<^verbatim>\<open>RobertaTokenizer\<close>; the module does not bind it.
\<close>

lemma words_loop_second_word:
  assumes "toks \<noteq> []" and "w \<noteq> []" and "RobertaTokenizer G = None"
  shows "words_loop G tk ((w, w_off) # rest) toks toffs sow = Inl NameError"
  using assms by simp

text \<open>
  C4, at \<^verbatim>\<open>"Berlin is a city"\<close> with \<open>word_tokenizer\<close>: the words and their offsets are
  \<^verbatim>\<open>[0, 7, 10, 12]\<close>, and the call raises \<^verbatim>\<open>NameError\<close> at the second word instead of
  returning them.
\<close>

theorem berlin_slow_path_raises:
  "split_space (sub_whitespace (py ''Berlin is a city''))
     = [py ''Berlin'', py ''is'', py ''a'', py ''city'']
   \<and> word_offsets_loop [py ''Berlin'', py ''is'', py ''a'', py ''city''] 0 [] = [0, 7, 10, 12]
   \<and> tokenize_with_metadata module_globals (py ''Berlin is a city'') word_tokenizer
       = Inl NameError"
  by (simp add: eval_defs)

text \<open>
  Were the name bound to a class, as an import of \<^verbatim>\<open>RobertaTokenizer\<close> from the library
  would do, the result would be the one the specification gives.
\<close>

lemma berlin_slow_path_with_import:
  "tokenize_with_metadata (module_globals\<lparr>RobertaTokenizer := Some cls\<rparr>)
     (py ''Berlin is a city'') word_tokenizer
   = Inr \<lparr> tokens = [TokenStr (py ''Berlin''), TokenStr (py ''is''), TokenStr (py ''a''),
                    TokenStr (py ''city'')],
           offsets = [0, 7, 10, 12],
           start_of_word = [PyBool True, PyBool True, PyBool True, PyBool True] \<rparr>"
  by (simp add: eval_defs)


text \<open>
  On the slow path the empty piece between the two spaces is skipped and the second
  letter keeps its offset 3 in the input; in the collapsed text it would stand at 2.
\<close>

lemma whitespace_runs_keep_offsets:
  "tokenize_with_metadata (module_globals\<lparr>RobertaTokenizer := Some cls\<rparr>)
     [97, 10, 10, 98] word_tokenizer
   = Inr \<lparr> tokens = [TokenStr [97], TokenStr [98]], offsets = [0, 3],
           start_of_word = [PyBool True, PyBool True] \<rparr>"
  by (simp add: eval_defs)

lemma sub_whitespace_idem: "sub_whitespace (sub_whitespace text) = sub_whitespace text"
  by (simp add: sub_whitespace_def isspace_def whitespace_chars_def)




section \<open>Properties of tokenize_batch_question_answering\<close>

text \<open>
  What the two loops return: the baskets that the loop body builds for every question of
  every document, in order, appended to the baskets they started with.
\<close>

lemma question_loop_Inr:
  "question_loop tk inds encs sows i text j qs acc = Inr bs \<Longrightarrow>
   \<exists>new. bs = acc @ new
      \<and> map Inr new = map (\<lambda>(k, q). make_basket tk inds encs sows i text k q) (enumerate j qs)"
proof (induction qs arbitrary: j acc)
  case Nil
  then show ?case by simp
next
  case (Cons q qs)
  from Cons.prems obtain b where
    b: "make_basket tk inds encs sows i text j q = Inr b"
    and rest: "question_loop tk inds encs sows i text (j + 1) qs (acc @ [b]) = Inr bs"
    by (cases "make_basket tk inds encs sows i text j q") auto
  from Cons.IH [OF rest] obtain new where
    new: "bs = (acc @ [b]) @ new"
      "map Inr new = map (\<lambda>(k, q). make_basket tk inds encs sows i text k q)
                       (enumerate (j + 1) qs)"
    by blast
  have "bs = acc @ (b # new)" using new(1) by simp
  moreover have "map Inr (b # new) =
      map (\<lambda>(k, q). make_basket tk inds encs sows i text k q) (enumerate j (q # qs))"
    using new(2) b by simp
  ultimately show ?case by blast
qed

lemma document_loop_Inr:
  "document_loop tk inds encs sows i ds acc = Inr bs \<Longrightarrow>
   \<exists>new. bs = acc @ new
      \<and> map Inr new = concat (map (\<lambda>(k, d).
            map (\<lambda>(j, q). make_basket tk inds encs sows k (context_text d) j q)
              (enumerate 0 (qas d))) (enumerate i ds))"
proof (induction ds arbitrary: i acc)
  case Nil
  then show ?case by simp
next
  case (Cons d ds)
  from Cons.prems obtain bs1 where
    q: "question_loop tk inds encs sows i (context_text d) 0 (qas d) acc = Inr bs1"
    and rest: "document_loop tk inds encs sows (i + 1) ds bs1 = Inr bs"
    by (cases "question_loop tk inds encs sows i (context_text d) 0 (qas d) acc") auto
  from question_loop_Inr [OF q] obtain new1 where
    n1: "bs1 = acc @ new1"
      "map Inr new1 = map (\<lambda>(j, q). make_basket tk inds encs sows i (context_text d) j q)
                        (enumerate 0 (qas d))"
    by blast
  from Cons.IH [OF rest] obtain new2 where
    n2: "bs = bs1 @ new2"
      "map Inr new2 = concat (map (\<lambda>(k, d).
            map (\<lambda>(j, q). make_basket tk inds encs sows k (context_text d) j q)
              (enumerate 0 (qas d))) (enumerate (i + 1) ds))"
    by blast
  have "bs = acc @ (new1 @ new2)" using n1(1) n2(1) by simp
  moreover have "map Inr (new1 @ new2) = concat (map (\<lambda>(k, d).
            map (\<lambda>(j, q). make_basket tk inds encs sows k (context_text d) j q)
              (enumerate 0 (qas d))) (enumerate i (d # ds)))"
    using n1(2) n2(2) by simp
  ultimately show ?case by blast
qed


lemma map_Inr_proj:
  assumes "map Inr bs = map f xs" and "\<And>x b. f x = Inr b \<Longrightarrow> g b = h x"
  shows "map g bs = map h xs"
  using assms(1)
proof (induction xs arbitrary: bs)
  case Nil
  then show ?case by simp
next
  case (Cons x xs)
  then obtain b bs' where "bs = b # bs'" "f x = Inr b" "map Inr bs' = map f xs"
    by (cases bs) auto
  with Cons.IH assms(2) show ?case by auto
qed

lemma map_Inr_concat_proj:
  assumes "map Inr bs = concat (map (\<lambda>(k, d). map (\<lambda>(j, q). f k d j q) (enumerate 0 (qs d)))
                                   (enumerate i ds))"
    and "\<And>k d j q b. f k d j q = Inr b \<Longrightarrow> g b = h k d j q"
  shows "map g bs = concat (map (\<lambda>(k, d). map (\<lambda>(j, q). h k d j q) (enumerate 0 (qs d)))
                              (enumerate i ds))"
  using assms(1)
proof (induction ds arbitrary: bs i)
  case Nil
  then show ?case by simp
next
  case (Cons d ds)
  from Cons.prems have
    "map Inr bs = map (\<lambda>(j, q). f i d j q) (enumerate 0 (qs d))
       @ concat (map (\<lambda>(k, d). map (\<lambda>(j, q). f k d j q) (enumerate 0 (qs d)))
                  (enumerate (Suc i) ds))"
    by simp
  then obtain bs1 bs2 where bs: "bs = bs1 @ bs2"
    and b1: "map Inr bs1 = map (\<lambda>(j, q). f i d j q) (enumerate 0 (qs d))"
    and b2: "map Inr bs2 = concat (map (\<lambda>(k, d). map (\<lambda>(j, q). f k d j q) (enumerate 0 (qs d)))
                  (enumerate (Suc i) ds))"
    by (auto simp: map_eq_append_conv)
  have "map g bs1 = map (\<lambda>(j, q). h i d j q) (enumerate 0 (qs d))"
    by (rule map_Inr_proj [OF b1]) (auto intro: assms(2))
  moreover note Cons.IH [OF b2]
  ultimately show ?case using bs by simp
qed

lemma map_enumerate_snd: "map (\<lambda>(j, q). h q) (enumerate n xs) = map h xs"
  by (induction xs arbitrary: n) auto

lemma map_enumerate_snd': "map (\<lambda>x. h (snd x)) (enumerate n xs) = map h xs"
  by (induction xs arbitrary: n) auto

lemma make_basket_fields:
  assumes "make_basket tk inds encs sows i text j q = Inr b"
  shows "document_text (raw b) = text"
    and "question_text (raw b) = question q"
    and "raw_answers (raw b) = answers q"
    and "id_external b = qa_id q"
    and "id_internal b = str_int (inds ! i) @ py ''-'' @ str_nat j"
    and "i < length inds"
    and "document_tokens (raw b) = input_ids (encs ! i)"
    and "document_offsets (raw b) = map fst (offset_mapping (encs ! i))"
    and "question_tokens (raw b) = input_ids (encode_plus tk (question q) False)"
    and "question_offsets (raw b) = map fst (offset_mapping (encode_plus tk (question q) False))"
  using assms
  by (auto simp: make_basket_def py_index_def Let_def split: sum.splits if_splits)

lemma ediff1d_total: "None \<notin> set ws \<Longrightarrow> \<exists>d. ediff1d ws = Inr d"
  by (induction ws rule: ediff1d.induct) (auto split: sum.splits)

lemma get_start_of_word_QA_total:
  "None \<notin> set word_ids \<Longrightarrow> \<exists>s. get_start_of_word_QA word_ids = Inr s"
proof -
  assume "None \<notin> set word_ids"
  then have "None \<notin> set (map (map_option int) word_ids)" by auto
  from ediff1d_total [OF this] show ?thesis
    by (auto simp: get_start_of_word_QA_def)
qed

lemma start_of_words_loop_total:
  "\<forall>e\<in>set encs. None \<notin> set (words e) \<Longrightarrow>
   \<exists>sows. start_of_words_loop encs acc = Inr sows \<and> length sows = length acc + length encs"
proof (induction encs arbitrary: acc)
  case Nil
  then show ?case by simp
next
  case (Cons e encs)
  then obtain s where "get_start_of_word_QA (words e) = Inr s"
    using get_start_of_word_QA_total [of "words e"] by auto
  moreover from Cons obtain sows where
    "start_of_words_loop encs (acc @ [s]) = Inr sows" "length sows = length (acc @ [s]) + length encs"
    by (metis list.set_intros(2))
  ultimately show ?case by simp
qed

lemma make_basket_total:
  assumes "i < length inds" "i < length encs" "i < length sows"
    and "None \<notin> set (words (encode_plus tk (question q) False))"
  shows "\<exists>b. make_basket tk inds encs sows i text j q = Inr b"
proof -
  from get_start_of_word_QA_total [OF assms(4)] obtain s where
    "get_start_of_word_QA (words (encode_plus tk (question q) False)) = Inr s" by blast
  with assms(1-3) show ?thesis
    by (simp add: make_basket_def py_index_def Let_def)
qed

lemma question_loop_total:
  assumes "i < length inds" "i < length encs" "i < length sows"
    and "\<forall>q\<in>set qs. None \<notin> set (words (encode_plus tk (question q) False))"
  shows "\<exists>bs. question_loop tk inds encs sows i text j qs acc = Inr bs"
  using assms(4)
proof (induction qs arbitrary: j acc)
  case Nil
  then show ?case by simp
next
  case (Cons q qs)
  then have "None \<notin> set (words (encode_plus tk (question q) False))" by simp
  from make_basket_total [OF assms(1-3) this] obtain b where
    "make_basket tk inds encs sows i text j q = Inr b" by blast
  moreover from Cons obtain bs where
    "question_loop tk inds encs sows i text (j + 1) qs (acc @ [b]) = Inr bs"
    by (metis list.set_intros(2))
  ultimately show ?case by simp
qed

lemma document_loop_total:
  assumes "i + length ds \<le> length inds" "i + length ds \<le> length encs"
    "i + length ds \<le> length sows"
    and "\<forall>d\<in>set ds. \<forall>q\<in>set (qas d). None \<notin> set (words (encode_plus tk (question q) False))"
  shows "\<exists>bs. document_loop tk inds encs sows i ds acc = Inr bs"
  using assms
proof (induction ds arbitrary: i acc)
  case Nil
  then show ?case by simp
next
  case (Cons d ds)
  from Cons.prems have i: "i < length inds" "i < length encs" "i < length sows"
    and q: "\<forall>q\<in>set (qas d). None \<notin> set (words (encode_plus tk (question q) False))"
    by auto
  from question_loop_total [OF i q] obtain bs1 where
    b1: "question_loop tk inds encs sows i (context_text d) 0 (qas d) acc = Inr bs1" by blast
  from Cons.prems have "\<exists>bs. document_loop tk inds encs sows (i + 1) ds bs1 = Inr bs"
    by (intro Cons.IH) auto
  with b1 show ?case by simp
qed


lemma tokenize_batch_Inr:
  assumes "tokenize_batch_question_answering pbs tk inds = Inr bs"
  shows "\<exists>sows. map Inr bs = concat (map (\<lambda>(k, d).
            map (\<lambda>(j, q). make_basket tk inds
                   (batch_encode_plus tk (map context_text pbs) False) sows k (context_text d) j q)
              (enumerate 0 (qas d))) (enumerate 0 pbs))"
proof -
  from assms obtain sows where
    "document_loop tk inds (batch_encode_plus tk (map context_text pbs) False) sows 0 pbs [] = Inr bs"
    by (auto simp: tokenize_batch_question_answering_def Let_def split: if_splits sum.splits)
  from document_loop_Inr [OF this] show ?thesis by auto
qed

lemma tokenize_batch_total:
  assumes "length inds = length pbs" and "is_fast tk"
    and "length (batch_encode_plus tk (map context_text pbs) False) = length pbs"
    and "\<forall>e\<in>set (batch_encode_plus tk (map context_text pbs) False). None \<notin> set (words e)"
    and "\<forall>d\<in>set pbs. \<forall>q\<in>set (qas d).
           None \<notin> set (words (encode_plus tk (question q) False))"
  shows "\<exists>bs. tokenize_batch_question_answering pbs tk inds = Inr bs"
proof -
  from start_of_words_loop_total [OF assms(4), of "[]"] obtain sows where
    sows: "start_of_words_loop (batch_encode_plus tk (map context_text pbs) False) [] = Inr sows"
      "length sows = length (batch_encode_plus tk (map context_text pbs) False)"
    by auto
  have "\<exists>bs. document_loop tk inds (batch_encode_plus tk (map context_text pbs) False)
               sows 0 pbs [] = Inr bs"
    using assms(1,3,5) sows(2) by (intro document_loop_total) auto
  with assms(1,2) sows(1) show ?thesis
    by (simp add: tokenize_batch_question_answering_def)
qed

lemma str_nat_0: "str_nat 0 = [48]"
  by (simp add: str_nat.simps)

lemma str_nat_1: "str_nat 1 = [49]"
  by (simp add: str_nat.simps)

lemma str_nat_Suc_0: "str_nat (Suc 0) = [49]"
  by (simp add: str_nat.simps)

lemmas batch_defs = tokenize_batch_question_answering_def first_batch_def second_batch_def
  fast_tokenizer_def char_encoding_def py_def make_basket_def get_start_of_word_QA_def
  py_index_def str_int_def str_nat_0 str_nat_1 str_nat_Suc_0 Let_def
  input_ids_def offset_mapping_def words_def enc_tokens_def

lemma first_batch_ids:
  "map_sum id (map id_internal) (tokenize_batch_question_answering first_batch fast_tokenizer [0])
     = Inr [py ''0-0'', py ''0-1'']"
  by (simp add: batch_defs)

lemma second_batch_ids:
  "map_sum id (map id_internal) (tokenize_batch_question_answering second_batch fast_tokenizer [1])
     = Inr [py ''1-0'']"
  by (simp add: batch_defs)

text \<open>
  C3. The claim: one basket per input document. The basket is appended inside the loop
  over the questions (line 197): the one document of \<open>first_batch\<close> has two questions and
  gives two baskets.
\<close>

theorem one_basket_per_document_counterexample:
  "length first_batch = 1
   \<and> map_sum id length (tokenize_batch_question_answering first_batch fast_tokenizer [0])
       = Inr 2"
  by (simp add: batch_defs)

text \<open>
  Every result that \<open>tokenize_batch_question_answering\<close> returns lists one basket per
  question, for the documents in order and the questions of each document in order.
\<close>

lemma baskets_of_result:
  assumes r: "tokenize_batch_question_answering pre_baskets tk indices = Inr baskets"
  shows "length baskets = sum_list (map (\<lambda>d. length (qas d)) pre_baskets)
     \<and> map (\<lambda>b. question_text (raw b)) baskets
         = concat (map (\<lambda>d. map question (qas d)) pre_baskets)
     \<and> map (\<lambda>b. raw_answers (raw b)) baskets
         = concat (map (\<lambda>d. map answers (qas d)) pre_baskets)
     \<and> map id_external baskets = concat (map (\<lambda>d. map qa_id (qas d)) pre_baskets)
     \<and> map (\<lambda>b. document_text (raw b)) baskets
         = concat (map (\<lambda>d. map (\<lambda>q. context_text d) (qas d)) pre_baskets)
     \<and> map (\<lambda>b. document_tokens (raw b)) baskets
         = concat (map (\<lambda>(i_doc, d). map (\<lambda>q. input_ids
               (batch_encode_plus tk (map context_text pre_baskets) False ! i_doc)) (qas d))
             (enumerate 0 pre_baskets))
     \<and> map (\<lambda>b. document_offsets (raw b)) baskets
         = concat (map (\<lambda>(i_doc, d). map (\<lambda>q. map fst (offset_mapping
               (batch_encode_plus tk (map context_text pre_baskets) False ! i_doc))) (qas d))
             (enumerate 0 pre_baskets))
     \<and> map (\<lambda>b. question_tokens (raw b)) baskets
         = concat (map (\<lambda>d. map (\<lambda>q. input_ids (encode_plus tk (question q) False)) (qas d))
             pre_baskets)
     \<and> map id_internal baskets
         = concat (map (\<lambda>(i_doc, d). map (\<lambda>(i_q, q).
               str_int (indices ! i_doc) @ py ''-'' @ str_nat i_q) (enumerate 0 (qas d)))
             (enumerate 0 pre_baskets))"
proof -
  let ?encs = "batch_encode_plus tk (map context_text pre_baskets) False"
  from tokenize_batch_Inr [OF r] obtain sows where
    m: "map Inr baskets = concat (map (\<lambda>(k, d).
            map (\<lambda>(j, q). make_basket tk indices ?encs sows k (context_text d) j q)
              (enumerate 0 (qas d))) (enumerate 0 pre_baskets))"
    by blast
  have proj: "map g baskets = concat (map (\<lambda>(k, d). map (\<lambda>(j, q). h k d j q)
                 (enumerate 0 (qas d))) (enumerate 0 pre_baskets))"
    if "\<And>k d j q b. make_basket tk indices ?encs sows k (context_text d) j q = Inr b
          \<Longrightarrow> g b = h k d j q" for g h
    using m that by (rule map_Inr_concat_proj)
  have len: "length baskets = sum_list (map (\<lambda>d. length (qas d)) pre_baskets)"
  proof -
    have "map (\<lambda>b. ()) baskets = concat (map (\<lambda>(k, d). map (\<lambda>(j, q). ())
                 (enumerate 0 (qas d))) (enumerate 0 pre_baskets))"
      by (rule proj) simp
    then have "length (map (\<lambda>b. ()) baskets) = length (concat (map (\<lambda>(k, d). map (\<lambda>(j, q). ())
                 (enumerate 0 (qas d))) (enumerate 0 pre_baskets)))"
      by simp
    then show ?thesis
      using map_enumerate_snd' [of "\<lambda>d. length (qas d)" 0 pre_baskets]
      by (simp add: length_concat comp_def case_prod_unfold)
  qed
  have q: "map (\<lambda>b. question_text (raw b)) baskets
         = concat (map (\<lambda>d. map question (qas d)) pre_baskets)"
    using proj [of "\<lambda>b. question_text (raw b)" "\<lambda>k d j q. question q"]
    by (simp add: make_basket_fields map_enumerate_snd)
  have a: "map (\<lambda>b. raw_answers (raw b)) baskets
         = concat (map (\<lambda>d. map answers (qas d)) pre_baskets)"
    using proj [of "\<lambda>b. raw_answers (raw b)" "\<lambda>k d j q. answers q"]
    by (simp add: make_basket_fields map_enumerate_snd)
  have e: "map id_external baskets = concat (map (\<lambda>d. map qa_id (qas d)) pre_baskets)"
    using proj [of id_external "\<lambda>k d j q. qa_id q"]
    by (simp add: make_basket_fields map_enumerate_snd)
  have t: "map (\<lambda>b. document_text (raw b)) baskets
         = concat (map (\<lambda>d. map (\<lambda>q. context_text d) (qas d)) pre_baskets)"
    using proj [of "\<lambda>b. document_text (raw b)" "\<lambda>k d j q. context_text d"]
    by (simp add: make_basket_fields map_enumerate_snd)
  have dt: "map (\<lambda>b. document_tokens (raw b)) baskets
         = concat (map (\<lambda>(i_doc, d). map (\<lambda>q. input_ids (?encs ! i_doc)) (qas d))
             (enumerate 0 pre_baskets))"
    using proj [of "\<lambda>b. document_tokens (raw b)" "\<lambda>k d j q. input_ids (?encs ! k)"]
    by (simp add: make_basket_fields map_enumerate_snd)
  have dof: "map (\<lambda>b. document_offsets (raw b)) baskets
         = concat (map (\<lambda>(i_doc, d). map (\<lambda>q. map fst (offset_mapping (?encs ! i_doc))) (qas d))
             (enumerate 0 pre_baskets))"
    using proj [of "\<lambda>b. document_offsets (raw b)"
                   "\<lambda>k d j q. map fst (offset_mapping (?encs ! k))"]
    by (simp add: make_basket_fields map_enumerate_snd)
  have qt: "map (\<lambda>b. question_tokens (raw b)) baskets
         = concat (map (\<lambda>d. map (\<lambda>q. input_ids (encode_plus tk (question q) False)) (qas d))
             pre_baskets)"
    using proj [of "\<lambda>b. question_tokens (raw b)"
                   "\<lambda>k d j q. input_ids (encode_plus tk (question q) False)"]
    by (simp add: make_basket_fields map_enumerate_snd)
  have ii: "map id_internal baskets
         = concat (map (\<lambda>(i_doc, d). map (\<lambda>(i_q, q).
               str_int (indices ! i_doc) @ py ''-'' @ str_nat i_q) (enumerate 0 (qas d)))
             (enumerate 0 pre_baskets))"
    using proj [of id_internal "\<lambda>k d j q. str_int (indices ! k) @ py ''-'' @ str_nat j"]
    by (simp add: make_basket_fields)
  from len q a e t dt dof qt ii show ?thesis by (intro conjI)
qed

text \<open>
  C3, amended. For every batch of documents with a list of indices of the same length and
  a fast tokenizer, \<open>tokenize_batch_question_answering\<close> returns exactly one basket per
  question: for the documents in order and the questions of each in order, a basket with
  the text, the tokens and the offsets of the document, the text, the tokens, the answers
  and the id of that one question, and the internal id made of the index of the document
  and the position of the question. The call returns when the tokenizer's encodings
  without special tokens hold one encoding per document and a word index for every
  token.
\<close>

theorem one_basket_per_question:
  assumes "length indices = length pre_baskets" and "is_fast tk"
    and "length (batch_encode_plus tk (map context_text pre_baskets) False) = length pre_baskets"
    and "\<forall>e\<in>set (batch_encode_plus tk (map context_text pre_baskets) False).
           None \<notin> set (words e)"
    and "\<forall>d\<in>set pre_baskets. \<forall>q\<in>set (qas d).
           None \<notin> set (words (encode_plus tk (question q) False))"
  shows "\<exists>baskets. tokenize_batch_question_answering pre_baskets tk indices = Inr baskets
     \<and> length baskets = sum_list (map (\<lambda>d. length (qas d)) pre_baskets)
     \<and> map (\<lambda>b. question_text (raw b)) baskets
         = concat (map (\<lambda>d. map question (qas d)) pre_baskets)
     \<and> map (\<lambda>b. raw_answers (raw b)) baskets
         = concat (map (\<lambda>d. map answers (qas d)) pre_baskets)
     \<and> map id_external baskets = concat (map (\<lambda>d. map qa_id (qas d)) pre_baskets)
     \<and> map (\<lambda>b. document_text (raw b)) baskets
         = concat (map (\<lambda>d. map (\<lambda>q. context_text d) (qas d)) pre_baskets)
     \<and> map (\<lambda>b. document_tokens (raw b)) baskets
         = concat (map (\<lambda>(i_doc, d). map (\<lambda>q. input_ids
               (batch_encode_plus tk (map context_text pre_baskets) False ! i_doc)) (qas d))
             (enumerate 0 pre_baskets))
     \<and> map (\<lambda>b. document_offsets (raw b)) baskets
         = concat (map (\<lambda>(i_doc, d). map (\<lambda>q. map fst (offset_mapping
               (batch_encode_plus tk (map context_text pre_baskets) False ! i_doc))) (qas d))
             (enumerate 0 pre_baskets))
     \<and> map (\<lambda>b. question_tokens (raw b)) baskets
         = concat (map (\<lambda>d. map (\<lambda>q. input_ids (encode_plus tk (question q) False)) (qas d))
             pre_baskets)
     \<and> map id_internal baskets
         = concat (map (\<lambda>(i_doc, d). map (\<lambda>(i_q, q).
               str_int (indices ! i_doc) @ py ''-'' @ str_nat i_q) (enumerate 0 (qas d)))
             (enumerate 0 pre_baskets))"
proof -
  from tokenize_batch_total [OF assms] obtain baskets where
    r: "tokenize_batch_question_answering pre_baskets tk indices = Inr baskets" by blast
  show ?thesis
    by (rule exI [of _ baskets], rule conjI [OF r baskets_of_result [OF r]])
qed

theorem one_basket_per_question_witness:
  "\<exists>baskets. tokenize_batch_question_answering first_batch fast_tokenizer [0] = Inr baskets
     \<and> length baskets = 2
     \<and> map (\<lambda>b. question_text (raw b)) baskets = [py ''a'', py ''b'']
     \<and> map (\<lambda>b. document_text (raw b)) baskets = [py ''a b'', py ''a b'']"
proof -
  have 1: "length [0 :: int] = length first_batch" by (simp add: first_batch_def)
  have 2: "is_fast fast_tokenizer" by (simp add: fast_tokenizer_def)
  have 3: "length (batch_encode_plus fast_tokenizer (map context_text first_batch) False)
             = length first_batch"
    by (simp add: fast_tokenizer_def)
  have 4: "\<forall>e\<in>set (batch_encode_plus fast_tokenizer (map context_text first_batch) False).
             None \<notin> set (words e)"
    by (simp add: fast_tokenizer_def first_batch_def char_encoding_def py_def words_def)
  have 5: "\<forall>d\<in>set first_batch. \<forall>q\<in>set (qas d).
             None \<notin> set (words (encode_plus fast_tokenizer (question q) False))"
    by (simp add: fast_tokenizer_def first_batch_def char_encoding_def py_def words_def)
  from one_basket_per_question [OF 1 2 3 4 5] obtain baskets where
    "tokenize_batch_question_answering first_batch fast_tokenizer [0] = Inr baskets"
    "length baskets = sum_list (map (\<lambda>d. length (qas d)) first_batch)"
    "map (\<lambda>b. question_text (raw b)) baskets
       = concat (map (\<lambda>d. map question (qas d)) first_batch)"
    "map (\<lambda>b. document_text (raw b)) baskets
       = concat (map (\<lambda>d. map (\<lambda>q. context_text d) (qas d)) first_batch)"
    by blast
  then show ?thesis by (simp add: first_batch_def)
qed

text \<open>
  The decimal digits of a number determine it, and a minus sign is no digit, so the
  internal id determines the index of the document and the position of the question.
\<close>

lemma str_nat_digits: "c \<in> set (str_nat n) \<Longrightarrow> 48 \<le> c \<and> c \<le> 57"
proof (induction n rule: str_nat.induct)
  case (1 n)
  show ?case
  proof (cases "n < 10")
    case True
    with "1.prems" show ?thesis by (simp add: str_nat.simps [of n])
  next
    case False
    with "1.prems" "1.IH" show ?thesis by (auto simp: str_nat.simps [of n])
  qed
qed

lemma str_nat_not_Nil: "str_nat n \<noteq> []"
  by (simp add: str_nat.simps [of n])

lemma str_nat_inject: "str_nat m = str_nat n \<Longrightarrow> m = n"
proof (induction m arbitrary: n rule: str_nat.induct)
  case (1 m)
  show ?case
  proof (cases "m < 10")
    case m: True
    show ?thesis
    proof (cases "n < 10")
      case True
      with m "1.prems" show ?thesis by (simp add: str_nat.simps [of m] str_nat.simps [of n])
    next
      case False
      with m "1.prems" str_nat_not_Nil [of "n div 10"] show ?thesis
        by (simp add: str_nat.simps [of m] str_nat.simps [of n])
    qed
  next
    case m: False
    show ?thesis
    proof (cases "n < 10")
      case True
      with m "1.prems" str_nat_not_Nil [of "m div 10"] show ?thesis
        by (simp add: str_nat.simps [of m] str_nat.simps [of n])
    next
      case False
      with m "1.prems" have "str_nat (m div 10) = str_nat (n div 10)" "m mod 10 = n mod 10"
        by (simp_all add: str_nat.simps [of m] str_nat.simps [of n])
      with "1.IH" [OF m] have "m div 10 = n div 10" "m mod 10 = n mod 10" by auto
      then show ?thesis by (metis div_mult_mod_eq)
    qed
  qed
qed

lemma str_nat_no_minus: "45 \<notin> set (str_nat n)"
  using str_nat_digits [of 45 n] by auto

lemma str_nat_not_minus: "str_nat k \<noteq> 45 # xs"
proof
  assume "str_nat k = 45 # xs"
  then have "45 \<in> set (str_nat k)" by simp
  with str_nat_no_minus show False by blast
qed

lemma str_int_inject: "str_int a = str_int b \<Longrightarrow> a = b"
proof -
  assume eq: "str_int a = str_int b"
  consider "a < 0" "b < 0" | "a < 0" "\<not> b < 0" | "\<not> a < 0" "b < 0" | "\<not> a < 0" "\<not> b < 0"
    by blast
  then show ?thesis
  proof cases
    case 1
    with eq have "str_nat (nat (- a)) = str_nat (nat (- b))" by (simp add: str_int_def)
    then have "nat (- a) = nat (- b)" by (rule str_nat_inject)
    with 1 show ?thesis by simp
  next
    case 2
    with eq have "str_nat (nat b) = 45 # str_nat (nat (- a))" by (simp add: str_int_def)
    with str_nat_not_minus show ?thesis by blast
  next
    case 3
    with eq have "str_nat (nat a) = 45 # str_nat (nat (- b))" by (simp add: str_int_def)
    with str_nat_not_minus show ?thesis by blast
  next
    case 4
    with eq have "str_nat (nat a) = str_nat (nat b)" by (simp add: str_int_def)
    then have "nat a = nat b" by (rule str_nat_inject)
    with 4 show ?thesis by simp
  qed
qed

lemma py_minus: "py ''-'' = [45]"
  by (simp add: py_def)

lemma split_at_first:
  "x \<notin> set xs \<Longrightarrow> x \<notin> set ys \<Longrightarrow> xs @ x # r = ys @ x # r' \<Longrightarrow> xs = ys \<and> r = r'"
proof (induction xs arbitrary: ys)
  case Nil
  then show ?case by (cases ys) auto
next
  case (Cons a xs)
  then show ?case by (cases ys) auto
qed

lemma internal_id_inject:
  assumes "str_int a @ py ''-'' @ str_nat j = str_int b @ py ''-'' @ str_nat k"
  shows "a = b \<and> j = k"
proof -
  from assms have "rev (str_int a @ 45 # str_nat j) = rev (str_int b @ 45 # str_nat k)"
    by (simp add: py_minus)
  then have eq: "rev (str_nat j) @ 45 # rev (str_int a) = rev (str_nat k) @ 45 # rev (str_int b)"
    by simp
  have nj: "45 \<notin> set (rev (str_nat j))" and nk: "45 \<notin> set (rev (str_nat k))"
    using str_nat_no_minus by simp_all
  have "rev (str_nat j) = rev (str_nat k) \<and> rev (str_int a) = rev (str_int b)"
    by (rule split_at_first [OF nj nk eq])
  then have sj: "str_nat j = str_nat k" and sa: "str_int a = str_int b" by simp_all
  from str_nat_inject [OF sj] str_int_inject [OF sa] show ?thesis by simp
qed


lemma in_concat_enumerate:
  "y \<in> set (concat (map (\<lambda>(k, d). map (\<lambda>(j, q). f k d j q) (enumerate 0 (qs d)))
                        (enumerate i ds)))
   \<Longrightarrow> \<exists>k d j q. f k d j q = y"
  by auto

lemma internal_id_form:
  fixes pbs :: "'ans pre_basket list"
  assumes "tokenize_batch_question_answering pbs tk inds = Inr bs" and "b \<in> set bs"
  shows "\<exists>i j. i < length inds \<and> id_internal b = str_int (inds ! i) @ py ''-'' @ str_nat j"
proof -
  from tokenize_batch_Inr [OF assms(1)] obtain sows where
    m: "map Inr bs = concat (map (\<lambda>(k, d).
            map (\<lambda>(j, q). make_basket tk inds
                   (batch_encode_plus tk (map context_text pbs) False) sows k (context_text d) j q)
              (enumerate 0 (qas d))) (enumerate 0 pbs))"
    by blast
  have "Inr b \<in> set (concat (map (\<lambda>(k, d).
            map (\<lambda>(j, q). make_basket tk inds
                   (batch_encode_plus tk (map context_text pbs) False) sows k (context_text d) j q)
              (enumerate 0 (qas d))) (enumerate 0 pbs)))"
    unfolding m [symmetric] using assms(2) by simp
  from in_concat_enumerate [OF this] obtain k and d :: "'ans pre_basket" and j q where
    "make_basket tk inds (batch_encode_plus tk (map context_text pbs) False) sows k
       (context_text d) j q = Inr b"
    by blast
  from make_basket_fields(5,6) [OF this] show ?thesis by blast
qed

text \<open>
  C9. Two runs of \<open>tokenize_batch_question_answering\<close> with disjoint lists of indices
  produce no internal id in common, whatever the batches and the tokenizers.
\<close>

theorem internal_ids_disjoint:
  assumes "set indices1 \<inter> set indices2 = {}"
    and "tokenize_batch_question_answering pre_baskets1 tk1 indices1 = Inr baskets1"
    and "tokenize_batch_question_answering pre_baskets2 tk2 indices2 = Inr baskets2"
  shows "id_internal ` set baskets1 \<inter> id_internal ` set baskets2 = {}"
proof (rule ccontr)
  assume "id_internal ` set baskets1 \<inter> id_internal ` set baskets2 \<noteq> {}"
  then obtain b1 b2 where b: "b1 \<in> set baskets1" "b2 \<in> set baskets2"
    and eq: "id_internal b1 = id_internal b2"
    by auto
  from internal_id_form [OF assms(2) b(1)] obtain i1 j1 where
    1: "i1 < length indices1" "id_internal b1 = str_int (indices1 ! i1) @ py ''-'' @ str_nat j1"
    by blast
  from internal_id_form [OF assms(3) b(2)] obtain i2 j2 where
    2: "i2 < length indices2" "id_internal b2 = str_int (indices2 ! i2) @ py ''-'' @ str_nat j2"
    by blast
  from eq 1(2) 2(2) have "str_int (indices1 ! i1) @ py ''-'' @ str_nat j1
      = str_int (indices2 ! i2) @ py ''-'' @ str_nat j2"
    by simp
  from internal_id_inject [OF this] have "indices1 ! i1 = indices2 ! i2" by simp
  moreover from 1(1) have "indices1 ! i1 \<in> set indices1" by simp
  moreover from 2(1) have "indices2 ! i2 \<in> set indices2" by simp
  ultimately show False using assms(1) by auto
qed


theorem internal_ids_disjoint_witness:
  "\<exists>baskets1 baskets2.
     tokenize_batch_question_answering first_batch fast_tokenizer [0] = Inr baskets1
     \<and> tokenize_batch_question_answering second_batch fast_tokenizer [1] = Inr baskets2
     \<and> map id_internal baskets1 = [py ''0-0'', py ''0-1'']
     \<and> map id_internal baskets2 = [py ''1-0'']
     \<and> id_internal ` set baskets1 \<inter> id_internal ` set baskets2 = {}"
proof -
  obtain baskets1 where
    r1: "tokenize_batch_question_answering first_batch fast_tokenizer [0] = Inr baskets1"
    and i1: "map id_internal baskets1 = [py ''0-0'', py ''0-1'']"
    using first_batch_ids
    by (cases "tokenize_batch_question_answering first_batch fast_tokenizer [0]") auto
  obtain baskets2 where
    r2: "tokenize_batch_question_answering second_batch fast_tokenizer [1] = Inr baskets2"
    and i2: "map id_internal baskets2 = [py ''1-0'']"
    using second_batch_ids
    by (cases "tokenize_batch_question_answering second_batch fast_tokenizer [1]") auto
  have d: "set [0 :: int] \<inter> set [1] = {}" by simp
  have x: "id_internal ` set baskets1 \<inter> id_internal ` set baskets2 = {}"
    by (rule internal_ids_disjoint [OF d r1 r2])
  show ?thesis
    by (rule exI [of _ baskets1], rule exI [of _ baskets2]) (intro conjI r1 r2 i1 i2 x)
qed

end
